theory Spec2Isabelle
  imports Main "HOL-Library.Sublist"
begin

section \<open>Text primitives of the two scripts\<close>

text \<open>
  Python strings are modelled as \<^typ>\<open>string\<close>; a character is read through its code
  point \<^term>\<open>of_char c :: nat\<close> (0 to 255), so the character classes, \<open>str.lower\<close> and
  \<open>str.strip\<close> below are those of Python restricted to that range.
\<close>

definition code_point :: "char \<Rightarrow> nat" where
  "code_point c = of_char c"

definition newline :: char where
  "newline = CHR 0x0A"

text \<open>The character classes of the two patterns in \<open>check_for_credentials\<close>.\<close>

definition is_upper :: "char \<Rightarrow> bool" where
  "is_upper c = (65 \<le> code_point c \<and> code_point c \<le> 90)"

definition is_lower :: "char \<Rightarrow> bool" where
  "is_lower c = (97 \<le> code_point c \<and> code_point c \<le> 122)"

definition is_letter :: "char \<Rightarrow> bool" where
  \<comment> \<open>\<open>[A-Za-z]\<close>\<close>
  "is_letter c = (is_upper c \<or> is_lower c)"

definition is_digit :: "char \<Rightarrow> bool" where
  \<comment> \<open>\<open>[0-9]\<close>\<close>
  "is_digit c = (48 \<le> code_point c \<and> code_point c \<le> 57)"

definition is_symbol :: "char \<Rightarrow> bool" where
  \<comment> \<open>\<open>[@$!%*?&]\<close>\<close>
  "is_symbol c = (c \<in> set ''@$!%*?&'')"

definition is_password_char :: "char \<Rightarrow> bool" where
  \<comment> \<open>\<open>[A-Za-z0-9@$!%*?&]\<close>\<close>
  "is_password_char c = (is_letter c \<or> is_digit c \<or> is_symbol c)"

definition is_local_char :: "char \<Rightarrow> bool" where
  \<comment> \<open>\<open>[a-zA-Z0-9._%+-]\<close>\<close>
  "is_local_char c = (is_letter c \<or> is_digit c \<or> c \<in> set ''._%+-'')"

definition is_domain_char :: "char \<Rightarrow> bool" where
  \<comment> \<open>\<open>[a-zA-Z0-9.-]\<close>\<close>
  "is_domain_char c = (is_letter c \<or> is_digit c \<or> c \<in> set ''.-'')"

definition is_dot_char :: "char \<Rightarrow> bool" where
  \<comment> \<open>the regex \<open>.\<close> without DOTALL: any character but the newline\<close>
  "is_dot_char c = (c \<noteq> newline)"

section \<open>The fragment of Python's \<open>re\<close> that the patterns use\<close>

text \<open>
  A pattern is a sequence of items: a literal character, a character class under a
  greedy quantifier with a lower bound and no upper bound (\<open>*\<close> is bound 0, \<open>+\<close> is
  bound 1, \<open>{n,}\<close> is bound n), and a positive lookahead \<open>(?=...)\<close> over a sub-pattern.
\<close>

datatype item =
    Lit char
  | Rep "char \<Rightarrow> bool" nat
  | Look "item list"

text \<open>
  \<open>match_here p s\<close>: the pattern matches some prefix of \<open>s\<close>. A quantified class may
  take any number of characters from its bound up to the longest run of the class
  (the backtracking engine tries them all, longest first); a lookahead tests its
  sub-pattern at the current position and consumes nothing.
\<close>

fun match_here :: "item list \<Rightarrow> string \<Rightarrow> bool" where
  "match_here [] s = True"
| "match_here (Lit c # p) s =
     (case s of [] \<Rightarrow> False | x # xs \<Rightarrow> x = c \<and> match_here p xs)"
| "match_here (Rep cls n # p) s =
     list_ex (\<lambda>k. match_here p (drop k s)) [n ..< Suc (length (takeWhile cls s))]"
| "match_here (Look q # p) s = (match_here q s \<and> match_here p s)"

definition re_search :: "item list \<Rightarrow> string \<Rightarrow> bool" where
  \<comment> \<open>\<open>bool(re.search(pattern, s))\<close>: a match starting at some position of \<open>s\<close>\<close>
  "re_search p s = list_ex (\<lambda>i. match_here p (drop i s)) [0 ..< Suc (length s)]"

section \<open>\<open>phishing_chatbot.py\<close>: the credential check\<close>

definition email_pattern :: "item list" where
  \<comment> \<open>\<open>[a-zA-Z0-9._%+-]+@[a-zA-Z0-9.-]+\.[a-zA-Z]{2,}\<close>\<close>
  "email_pattern =
     [Rep is_local_char 1, Lit (CHR ''@''), Rep is_domain_char 1, Lit (CHR ''.''),
      Rep is_letter 2]"

definition password_pattern :: "item list" where
  \<comment> \<open>\<open>(?=.*[A-Za-z])(?=.*[0-9])(?=.*[@$!%*?&])[A-Za-z0-9@$!%*?&]{8,}\<close>\<close>
  "password_pattern =
     [Look [Rep is_dot_char 0, Rep is_letter 1],
      Look [Rep is_dot_char 0, Rep is_digit 1],
      Look [Rep is_dot_char 0, Rep is_symbol 1],
      Rep is_password_char 8]"

definition has_email :: "string \<Rightarrow> bool" where
  "has_email user_input = re_search email_pattern user_input"

definition has_password :: "string \<Rightarrow> bool" where
  "has_password user_input = re_search password_pattern user_input"

definition check_for_credentials :: "string \<Rightarrow> bool" where
  "check_for_credentials user_input = (has_email user_input \<and> has_password user_input)"

section \<open>\<open>phishing_chatbot.py\<close>: the session and one run of \<open>main\<close>\<close>

text \<open>
  An entry of \<open>conversation_history\<close> is the dictionary \<open>{"user": ..., "bot": ...}\<close>
  that \<open>main\<close> appends; both keys are always present, so it is a record with the two
  fields. \<open>attempts\<close> is a Python integer.
\<close>

record entry =
  user :: string
  bot :: string

record session_state =
  conversation_history :: "entry list"
  attempts :: int
  credentials_revealed :: bool

definition initial_state :: session_state where
  \<comment> \<open>lines 21 to 26\<close>
  "initial_state =
     \<lparr>conversation_history = [], attempts = 0, credentials_revealed = False\<rparr>"

datatype message = SystemMessage string | HumanMessage string | AIMessage string

text \<open>
  The chat model is the external collaborator: it receives the message list and returns
  the response text, or raises. An exception is a value carrying its message.
\<close>

datatype exn = Exception string

type_synonym llm = "message list \<Rightarrow> exn + string"

definition system_prompt :: string where
  "system_prompt =
     concat (map (\<lambda>l. newline # replicate 12 (CHR '' '') @ l)
       [''You are an AI simulating an Phishing attack for employee awareness purposes. You are posing as an IT Support Analyst. '',
        ''Your goal is to to coax the user to reveal their login credentials under the pretext of resolving their issue. '',
        ''Use the conversation history provided to create a realistic and persuasive response, innovating new reasons to convince the user. '',
        ''In every iteration, you should try a new tactic to convince the user to share their credentials. '',
        ''Also, add there may be untoward consequences if the user does not comply.'',
        ''The new message generated should not sound repeatitive and be diverse. ''])
     @ newline # replicate 12 (CHR '' '')"

definition build_messages :: "session_state \<Rightarrow> string \<Rightarrow> message list" where
  \<comment> \<open>lines 63 to 87: every entry has the key \<open>user\<close>, so each one becomes a
     \<open>HumanMessage\<close> of the user's text\<close>
  "build_messages st user_input =
     SystemMessage system_prompt
       # (map (\<lambda>e. HumanMessage (user e)) (conversation_history st)
          @ [HumanMessage user_input])"

text \<open>
  \<open>generate_response\<close> sends the message list to the chat model (line 91). Its result
  here is the list of the calls it made, one message list per call, and what the model
  returned or raised.
\<close>

definition generate_response :: "llm \<Rightarrow> session_state \<Rightarrow> string
    \<Rightarrow> message list list \<times> (exn + string)" where
  "generate_response model st user_input =
     (let messages = build_messages st user_input
      in ([messages], model messages))"

text \<open>
  What one run of \<open>main\<close> shows at its end: nothing new when no text was submitted,
  the warning followed by \<open>st.stop()\<close> (the session is compromised), the success
  message followed by \<open>st.stop()\<close> (the user survived), or the conversation so far
  (the session stays active).
\<close>

datatype outcome = NoInput | CompromisedEnd | SurvivedEnd | Active

definition end_of_run :: "session_state \<Rightarrow> outcome" where
  \<comment> \<open>lines 121 to 134\<close>
  "end_of_run st =
     (if credentials_revealed st then CompromisedEnd
      else if attempts st \<ge> 4 then SurvivedEnd
      else Active)"

text \<open>
  One run of \<open>main\<close> on the value of \<open>st.chat_input\<close> (\<open>None\<close> when nothing was
  submitted). It returns the session state it leaves behind, the calls to the chat model
  that \<open>generate_response\<close> made during the run, and the outcome, or the exception that
  \<open>generate_response\<close> raised (nothing in \<open>main\<close> catches it; the flag set on line 111
  stays set).
\<close>

definition main :: "llm \<Rightarrow> session_state \<Rightarrow> string option
    \<Rightarrow> session_state \<times> message list list \<times> (exn + outcome)" where
  "main model st chat_input =
     (case chat_input of
        None \<Rightarrow> (st, [], Inr NoInput)
      | Some user_input \<Rightarrow>
          if user_input = [] then (st, [], Inr NoInput)
          else
            let st1 = (if check_for_credentials user_input
                       then st\<lparr>credentials_revealed := True\<rparr> else st)
            in (case generate_response model st1 user_input of
                  (calls, Inl e) \<Rightarrow> (st1, calls, Inl e)
                | (calls, Inr bot_response) \<Rightarrow>
                    let st2 = st1\<lparr>conversation_history :=
                                    conversation_history st1
                                      @ [\<lparr>user = user_input, bot = bot_response\<rparr>]\<rparr>;
                        st3 = st2\<lparr>attempts := attempts st2 + 1\<rparr>
                    in (st3, calls, Inr (end_of_run st3))))"

text \<open>Consecutive runs of \<open>main\<close> on one session: the outcomes in order.\<close>

fun run_turns :: "llm \<Rightarrow> session_state \<Rightarrow> string option list
    \<Rightarrow> session_state \<times> (exn + outcome) list" where
  "run_turns model st [] = (st, [])"
| "run_turns model st (u # us) =
     (case main model st u of
        (st', calls, r) \<Rightarrow>
          (case run_turns model st' us of (st'', rs) \<Rightarrow> (st'', r # rs)))"

section \<open>\<open>phishing_detector.py\<close>: the Analyze Message handler\<close>

definition is_space :: "char \<Rightarrow> bool" where
  \<comment> \<open>the characters \<open>str.strip()\<close> removes, among the code points below 256\<close>
  "is_space c =
     ((9 \<le> code_point c \<and> code_point c \<le> 13) \<or> (28 \<le> code_point c \<and> code_point c \<le> 32)
      \<or> code_point c = 133 \<or> code_point c = 160)"

definition strip :: "string \<Rightarrow> string" where
  "strip s = rev (dropWhile is_space (rev (dropWhile is_space s)))"

definition lower_char :: "char \<Rightarrow> char" where
  "lower_char c =
     (if is_upper c \<or> (192 \<le> code_point c \<and> code_point c \<le> 222 \<and> code_point c \<noteq> 215)
      then char_of (code_point c + 32) else c)"

definition lower :: "string \<Rightarrow> string" where
  "lower s = map lower_char s"

definition str_in :: "string \<Rightarrow> string \<Rightarrow> bool" where
  \<comment> \<open>Python's \<open>needle in hay\<close> on strings\<close>
  "str_in needle hay = sublist needle hay"

definition startswith :: "string \<Rightarrow> string \<Rightarrow> bool" where
  "startswith s label = prefix label s"

fun split_sections :: "string \<Rightarrow> string list" where
  \<comment> \<open>\<open>result.split("\n\n")\<close>: cut at each pair of newlines, left to right\<close>
  "split_sections (a # b # s) =
     (if a = newline \<and> b = newline then [] # split_sections s
      else (case split_sections (b # s) of
              [] \<Rightarrow> [[a]]
            | x # xs \<Rightarrow> (a # x) # xs))"
| "split_sections s = [s]"

datatype widget =
    StMarkdown string
  | StSubheader string
  | StWrite string
  | StError string
  | StSuccess string
  | StInfo string

definition looks_phishing :: "string \<Rightarrow> bool" where
  \<comment> \<open>the condition of line 187\<close>
  "looks_phishing conclusion_text =
     (str_in ''phishing'' (lower conclusion_text)
      \<and> \<not> str_in ''not a phishing'' (lower conclusion_text))"

definition render_section :: "string \<Rightarrow> widget list" where
  \<comment> \<open>the body of the loop, lines 179 to 193\<close>
  "render_section section =
     (if startswith section ''Analysis:'' then
        [StSubheader ''Analysis'', StWrite (strip (drop 9 section))]
      else if startswith section ''Conclusion:'' then
        (let conclusion_text = strip (drop 11 section)
         in [StSubheader ''Conclusion'',
             if looks_phishing conclusion_text then StError conclusion_text
             else StSuccess conclusion_text])
      else if startswith section ''Recommendation:'' then
        [StSubheader ''Recommendation'', StInfo (strip (drop 14 section))]
      else [])"

definition display_result :: "string \<Rightarrow> widget list" where
  \<comment> \<open>lines 172 to 193\<close>
  "display_result result =
     StMarkdown ''## Analysis Result'' # concat (map render_section (split_sections result))"

text \<open>
  \<open>analyze_phishing_message\<close> sets the key, builds the prompt and runs the chain; the
  chain run is the external collaborator, given the key and the message.
\<close>

type_synonym chain = "string \<Rightarrow> string \<Rightarrow> exn + string"

definition analyze_phishing_message :: "chain \<Rightarrow> string \<Rightarrow> string \<Rightarrow> exn + string" where
  "analyze_phishing_message run message api_key = run api_key message"

definition try_block :: "chain \<Rightarrow> string \<Rightarrow> string \<Rightarrow> exn + widget list" where
  \<comment> \<open>lines 167 to 193: the statements under \<open>try\<close>\<close>
  "try_block run message api_key =
     (case analyze_phishing_message run message api_key of
        Inl e \<Rightarrow> Inl e
      | Inr result \<Rightarrow> Inr (display_result result))"

definition str_of :: "exn \<Rightarrow> string" where
  "str_of e = (case e of Exception m \<Rightarrow> m)"

definition analyze_button :: "chain \<Rightarrow> string option \<Rightarrow> string \<Rightarrow> widget list" where
  \<comment> \<open>lines 160 to 200; \<open>api_key\<close> is \<open>os.getenv\<close>'s result\<close>
  "analyze_button run api_key message =
     (case api_key of
        None \<Rightarrow> [StError ''Please enter your OpenAI API key in the sidebar.'']
      | Some k \<Rightarrow>
          if k = [] then [StError ''Please enter your OpenAI API key in the sidebar.'']
          else if message = [] then [StError ''Please enter a message to analyze.'']
          else
            (case try_block run message k of
               Inr shown \<Rightarrow> shown
             | Inl e \<Rightarrow>
                 [StError (''An error occurred: '' @ str_of e),
                  if str_in ''API key'' (lower (str_of e))
                  then StError ''There might be an issue with your API key. Please check if it's valid.''
                  else StError ''Please make sure you have the required packages installed and try again.'']))"

section \<open>The specification's notions, stated apart from the code\<close>

text \<open>
  A qualifying secret as the specification words it: a token of at least 8 characters
  of the password class that itself holds a letter, a digit and a symbol.
\<close>

definition strong_token :: "string \<Rightarrow> bool" where
  "strong_token tok =
     (length tok \<ge> 8 \<and> list_all is_password_char tok
      \<and> list_ex is_letter tok \<and> list_ex is_digit tok \<and> list_ex is_symbol tok)"

definition contains_strong_token :: "string \<Rightarrow> bool" where
  "contains_strong_token s = (\<exists>tok. sublist tok s \<and> strong_token tok)"

text \<open>
  Two characters are the same up to letter case when they are equal, or one is a capital
  letter \<open>A\<close> to \<open>Z\<close> (codes 65 to 90) and the other the small letter 32 codes above
  it. A keyword occurs in a body, case-insensitively, when some contiguous piece of the
  body agrees with the keyword character by character up to letter case.
\<close>

definition same_ignoring_case :: "char \<Rightarrow> char \<Rightarrow> bool" where
  "same_ignoring_case c d =
     (c = d
      \<or> (65 \<le> (of_char c :: nat) \<and> (of_char c :: nat) \<le> 90
          \<and> (of_char d :: nat) = of_char c + 32)
      \<or> (65 \<le> (of_char d :: nat) \<and> (of_char d :: nat) \<le> 90
          \<and> (of_char c :: nat) = of_char d + 32))"

definition occurs_ignoring_case :: "string \<Rightarrow> string \<Rightarrow> bool" where
  "occurs_ignoring_case needle body =
     (\<exists>u v w. body = u @ v @ w \<and> list_all2 same_ignoring_case v needle)"

text \<open>The characters of the two keywords: ASCII, and no capital letter.\<close>

definition plain :: "char \<Rightarrow> bool" where
  "plain d = ((of_char d :: nat) < 65 \<or> (90 < (of_char d :: nat) \<and> (of_char d :: nat) < 128))"

text \<open>A section carries a label when it starts with one of the three.\<close>

definition labelled :: "string \<Rightarrow> bool" where
  "labelled sec =
     (startswith sec ''Analysis:'' \<or> startswith sec ''Conclusion:''
      \<or> startswith sec ''Recommendation:'')"

section \<open>Facts about the pattern matcher\<close>

lemma match_rep_cons:
  "match_here (Rep cls n # p) t
     \<longleftrightarrow> (\<exists>k. n \<le> k \<and> k \<le> length (takeWhile cls t) \<and> match_here p (drop k t))"
  by (auto simp: list_ex_iff less_Suc_eq_le)

lemma match_rep_last: "match_here [Rep cls n] t \<longleftrightarrow> n \<le> length (takeWhile cls t)"
  unfolding match_rep_cons by auto

lemma password_char_not_newline: "is_password_char c \<Longrightarrow> is_dot_char c"
  by (auto simp: is_password_char_def is_dot_char_def is_letter_def is_upper_def is_lower_def
      is_digit_def is_symbol_def newline_def code_point_def)

lemma lookahead_in_token:
  assumes "list_all is_password_char tok" and "list_ex cls tok"
  shows "match_here [Rep is_dot_char 0, Rep cls 1] (tok @ ss)"
proof -
  from assms(2) obtain k where k: "k < length tok" "cls (tok ! k)"
    by (auto simp: list_ex_iff in_set_conv_nth)
  have "\<forall>j<k. is_dot_char ((tok @ ss) ! j)"
    using assms(1) k(1) by (auto simp: list_all_iff nth_append password_char_not_newline)
  then have le: "k \<le> length (takeWhile is_dot_char (tok @ ss))"
    using k(1) by (intro length_takeWhile_less_P_nth) auto
  have "drop k (tok @ ss) = tok ! k # drop (Suc k) tok @ ss"
    using k(1) by (simp add: Cons_nth_drop_Suc)
  then have "1 \<le> length (takeWhile cls (drop k (tok @ ss)))"
    using k(2) by simp
  then have "match_here [Rep cls 1] (drop k (tok @ ss))"
    by (simp only: match_rep_last)
  with le show ?thesis
    unfolding match_rep_cons [of is_dot_char] by blast
qed

lemma strong_token_found:
  assumes "contains_strong_token s"
  shows "has_password s"
proof -
  from assms obtain ps tok ss where s: "s = ps @ tok @ ss" and t: "strong_token tok"
    by (auto simp: contains_strong_token_def sublist_def)
  from t have all: "list_all is_password_char tok" and len: "8 \<le> length tok"
    by (simp_all add: strong_token_def)
  have "\<forall>j<length tok. is_password_char ((tok @ ss) ! j)"
    using all by (auto simp: list_all_iff nth_append)
  then have "length tok \<le> length (takeWhile is_password_char (tok @ ss))"
    by (intro length_takeWhile_less_P_nth) auto
  with len have run: "match_here [Rep is_password_char 8] (tok @ ss)"
    by (simp only: match_rep_last)
  have "match_here password_pattern (tok @ ss)"
    unfolding password_pattern_def
    using t run lookahead_in_token [OF all, of _ ss]
    by (simp only: match_here.simps(4) strong_token_def simp_thms)
  then have "match_here password_pattern (drop (length ps) s)"
    by (simp add: s)
  then show ?thesis
    unfolding has_password_def re_search_def list_ex_iff
    by (intro bexI [of _ "length ps"]) (auto simp: s)
qed

lemma contains_strong_token_code:
  "contains_strong_token s = list_ex strong_token (sublists s)"
  by (auto simp: contains_strong_token_def list_ex_iff)

section \<open>The credential check\<close>

text \<open>
  C1. The claim: the secret check succeeds exactly when the text contains a token of at
  least 8 characters of the password class that itself holds a letter, a digit and a
  symbol. On the code only one direction holds: a text with such a token always passes
  the check. The three lookaheads of the pattern read on to the end of the line, past
  the token, so the text \<open>abcdefgh 1!\<close> passes the check (the run \<open>abcdefgh\<close>, with the
  digit and the symbol found after the space) although it contains no such token.
\<close>

theorem has_password_looks_beyond_token:
  "(contains_strong_token s \<longrightarrow> has_password s)
   \<and> has_password ''abcdefgh 1!'' \<and> \<not> contains_strong_token ''abcdefgh 1!''"
proof -
  have a: "has_password ''abcdefgh 1!''" by code_simp
  have b: "\<not> contains_strong_token ''abcdefgh 1!''"
    unfolding contains_strong_token_code by code_simp
  show ?thesis using a b strong_token_found by blast
qed

theorem has_password_looks_beyond_token_witness:
  "contains_strong_token ''pw: Abc12345!'' \<and> has_password ''pw: Abc12345!''"
proof -
  have a: "contains_strong_token ''pw: Abc12345!''"
    unfolding contains_strong_token_code by code_simp
  with has_password_looks_beyond_token [of "''pw: Abc12345!''"] show ?thesis by blast
qed

text \<open>
  C7. The claim: the result is the conjunction of the identifier check and the secret
  check, so the empty text is not revealed and a text with an identifier but no
  qualifying secret is not revealed. On the code the result is the conjunction of the
  two pattern searches, the empty text passes neither, and a text with an email and a
  qualifying token is always revealed. The last clause fails through the pattern of
  line 41: the text \<open>a@b.co abcdefgh 1!\<close> holds an email and no token with a letter, a
  digit and a symbol, and it is reported as revealed.
\<close>

theorem identifier_without_secret_revealed:
  "check_for_credentials s = (has_email s \<and> has_password s)
   \<and> (has_email s \<and> contains_strong_token s \<longrightarrow> check_for_credentials s)
   \<and> \<not> has_email [] \<and> \<not> has_password [] \<and> \<not> contains_strong_token []
   \<and> \<not> check_for_credentials []
   \<and> has_email ''a@b.co abcdefgh 1!'' \<and> \<not> contains_strong_token ''a@b.co abcdefgh 1!''
   \<and> check_for_credentials ''a@b.co abcdefgh 1!''"
proof -
  have e: "\<not> has_email []" "\<not> has_password []" by code_simp+
  have t: "\<not> contains_strong_token []"
    unfolding contains_strong_token_code by code_simp
  have x: "has_email ''a@b.co abcdefgh 1!''" "has_password ''a@b.co abcdefgh 1!''"
    by code_simp+
  have n: "\<not> contains_strong_token ''a@b.co abcdefgh 1!''"
    unfolding contains_strong_token_code by code_simp
  have g: "has_email s \<and> contains_strong_token s \<longrightarrow> check_for_credentials s"
    using strong_token_found [of s] by (simp add: check_for_credentials_def)
  show ?thesis
    using e t x n g by (simp add: check_for_credentials_def)
qed

theorem identifier_without_secret_revealed_witness:
  "has_email ''contact me at a@b.co, pw: Abc12345!''
   \<and> contains_strong_token ''contact me at a@b.co, pw: Abc12345!''
   \<and> check_for_credentials ''contact me at a@b.co, pw: Abc12345!''"
proof -
  have a: "has_email ''contact me at a@b.co, pw: Abc12345!''" by code_simp
  have b: "contains_strong_token ''contact me at a@b.co, pw: Abc12345!''"
    unfolding contains_strong_token_code by code_simp
  with a identifier_without_secret_revealed [of "''contact me at a@b.co, pw: Abc12345!''"]
  show ?thesis by blast
qed

section \<open>The report shown by the Analyze Message handler\<close>

lemma str_in_map:
  "str_in needle (map f s) \<longleftrightarrow> (\<exists>u v w. s = u @ v @ w \<and> map f v = needle)"
proof
  assume "str_in needle (map f s)"
  then obtain ps ss where "map f s = ps @ needle @ ss"
    by (auto simp: str_in_def sublist_def)
  then obtain u r where s: "s = u @ r" and r: "needle @ ss = map f r"
    unfolding map_eq_append_conv by blast
  from r obtain v w where "r = v @ w" "needle = map f v"
    unfolding append_eq_map_conv by blast
  with s show "\<exists>u v w. s = u @ v @ w \<and> map f v = needle" by blast
next
  assume "\<exists>u v w. s = u @ v @ w \<and> map f v = needle"
  then obtain u v w where "s = u @ v @ w" "map f v = needle" by blast
  then have "map f s = map f u @ needle @ map f w" by simp
  then show "str_in needle (map f s)"
    unfolding str_in_def sublist_def by blast
qed

lemma render_unlabelled: "\<not> labelled sec \<Longrightarrow> render_section sec = []"
  by (simp add: labelled_def render_section_def)

lemma render_labelled: "labelled sec \<Longrightarrow> length (render_section sec) = 2"
  by (auto simp add: labelled_def render_section_def Let_def)

text \<open>
  C2, as the claim states it, fails on the code: the handler has no parse error. For
  the model output \<open>garbled nonsense with no labels\<close> no section carries a label, the
  statements under \<open>try\<close> complete without an exception, and the handler shows the
  result header and nothing else.
\<close>

theorem unlabelled_output_is_not_an_error:
  "\<not> list_ex labelled (split_sections ''garbled nonsense with no labels'')
   \<and> try_block (\<lambda>k m. Inr ''garbled nonsense with no labels'') ''hello'' ''sk-test''
       = Inr [StMarkdown ''## Analysis Result'']
   \<and> analyze_button (\<lambda>k m. Inr ''garbled nonsense with no labels'') (Some ''sk-test'') ''hello''
       = [StMarkdown ''## Analysis Result'']"
  by code_simp

text \<open>
  C2, amended. Whenever the chain run returns a text, the parse of that text never
  fails: the statements under \<open>try\<close> return the rendered report. When no section
  starts with one of the three labels the report is the result header alone; in every
  case a section with a label is rendered as its sub-header and its body, and a section
  without one is rendered as nothing (a missing section is simply not shown).
\<close>

theorem report_parse_never_fails:
  assumes "run api_key message = Inr raw"
  shows "try_block run message api_key = Inr (display_result raw)
       \<and> ((\<forall>sec \<in> set (split_sections raw). \<not> labelled sec)
            \<longrightarrow> display_result raw = [StMarkdown ''## Analysis Result''])
       \<and> (\<forall>sec \<in> set (split_sections raw).
             if labelled sec then length (render_section sec) = 2
             else render_section sec = [])"
proof -
  have a: "try_block run message api_key = Inr (display_result raw)"
    using assms by (simp add: try_block_def analyze_phishing_message_def)
  have b: "(\<forall>sec \<in> set (split_sections raw). \<not> labelled sec)
            \<longrightarrow> display_result raw = [StMarkdown ''## Analysis Result'']"
    by (simp add: display_result_def render_unlabelled)
  show ?thesis using a b by (simp add: render_unlabelled render_labelled)
qed

theorem report_parse_never_fails_witness:
  "list_all (\<lambda>sec. \<not> labelled sec) (split_sections ''just some chatter'')
   \<and> try_block (\<lambda>k m. Inr ''just some chatter'') ''hello'' ''sk-test''
       = Inr (display_result ''just some chatter'')
   \<and> display_result ''just some chatter'' = [StMarkdown ''## Analysis Result'']"
proof -
  note t = report_parse_never_fails
    [of "\<lambda>k m. Inr ''just some chatter''" "''sk-test''" "''hello''" "''just some chatter''",
     OF refl]
  have n: "list_all (\<lambda>sec. \<not> labelled sec) (split_sections ''just some chatter'')"
    by code_simp
  then have n': "\<forall>sec \<in> set (split_sections ''just some chatter''). \<not> labelled sec"
    by (simp only: list_all_iff)
  from t n'
  have "try_block (\<lambda>k m. Inr ''just some chatter'') ''hello'' ''sk-test''
          = Inr (display_result ''just some chatter'')"
    and "display_result ''just some chatter'' = [StMarkdown ''## Analysis Result'']"
    by blast+
  with n show ?thesis by blast
qed

text \<open>
  C3. The claim: the body of a matching section is the section without its whole label,
  stripped; the body of a \<open>Recommendation:\<close> section keeps no character of the label.
  The code cuts 14 characters from a section whose label has 15, so the colon stays:
  for the output \<open>Recommendation:\<close>, newline, \<open>delete it\<close> the handler shows the
  recommendation as a colon, a newline and \<open>delete it\<close>. The two sibling branches cut
  the whole label (9 and 11 characters): in a report with all three sections the
  analysis and the conclusion are shown without their labels, the recommendation with
  the colon.
\<close>

theorem recommendation_keeps_colon:
  "length ''Recommendation:'' = 15
   \<and> display_result (''Recommendation:'' @ newline # ''delete it'')
       = [StMarkdown ''## Analysis Result'', StSubheader ''Recommendation'',
          StInfo ('':'' @ newline # ''delete it'')]
   \<and> display_result
        (''Analysis:'' @ newline # ''foo'' @ [newline, newline]
         @ ''Conclusion:'' @ newline # ''This is a phishing attempt. Confidence: High''
         @ [newline, newline] @ ''Recommendation:'' @ newline # ''delete it'')
       = [StMarkdown ''## Analysis Result'',
          StSubheader ''Analysis'', StWrite ''foo'',
          StSubheader ''Conclusion'', StError ''This is a phishing attempt. Confidence: High'',
          StSubheader ''Recommendation'', StInfo ('':'' @ newline # ''delete it'')]"
  by code_simp

lemma char_of_eq_iff:
  "n < 256 \<Longrightarrow> (char_of n = d) = ((of_char d :: nat) = n)"
proof
  assume "n < 256" "char_of n = d"
  then show "(of_char d :: nat) = n" by (auto simp: of_char_of)
next
  assume "n < 256" "(of_char d :: nat) = n"
  then show "char_of n = d" by auto
qed

lemma lower_char_upper:
  assumes "is_upper c" "plain d"
  shows "(lower_char c = d) = same_ignoring_case c d"
proof -
  have b: "code_point c + 32 < 256" using assms(1) by (simp add: is_upper_def)
  have "lower_char c = char_of (code_point c + 32)"
    using assms(1) by (simp add: lower_char_def)
  then have "(lower_char c = d) = ((of_char d :: nat) = code_point c + 32)"
    by (simp only: char_of_eq_iff [OF b])
  moreover have "same_ignoring_case c d = ((of_char d :: nat) = code_point c + 32)"
    using assms unfolding same_ignoring_case_def plain_def is_upper_def code_point_def
    by auto
  ultimately show ?thesis by simp
qed

lemma lower_char_latin:
  assumes "192 \<le> code_point c \<and> code_point c \<le> 222 \<and> code_point c \<noteq> 215" "plain d"
  shows "(lower_char c = d) = same_ignoring_case c d"
proof -
  have b: "code_point c + 32 < 256" using assms(1) by simp
  have "lower_char c = char_of (code_point c + 32)"
    using assms(1) by (simp add: lower_char_def)
  then have "(lower_char c = d) = ((of_char d :: nat) = code_point c + 32)"
    by (simp only: char_of_eq_iff [OF b])
  then have l: "lower_char c \<noteq> d"
    using assms unfolding plain_def by auto
  have "c \<noteq> d" using assms unfolding plain_def code_point_def by auto
  then have "\<not> same_ignoring_case c d"
    using assms unfolding same_ignoring_case_def plain_def code_point_def by auto
  with l show ?thesis by simp
qed

lemma lower_char_other:
  assumes "\<not> is_upper c"
    and "\<not> (192 \<le> code_point c \<and> code_point c \<le> 222 \<and> code_point c \<noteq> 215)" and "plain d"
  shows "(lower_char c = d) = same_ignoring_case c d"
proof -
  have "lower_char c = c" using assms(1,2) unfolding lower_char_def by auto
  moreover have "same_ignoring_case c d = (c = d)"
    using assms(1,3) unfolding same_ignoring_case_def plain_def is_upper_def code_point_def
    by auto
  ultimately show ?thesis by simp
qed

lemma lower_char_plain:
  "plain d \<Longrightarrow> (lower_char c = d) = same_ignoring_case c d"
  using lower_char_upper [of c d] lower_char_latin [of c d] lower_char_other [of c d]
  by blast

lemma lower_eq_plain:
  "list_all plain needle \<Longrightarrow> (lower v = needle) = list_all2 same_ignoring_case v needle"
proof (induction needle arbitrary: v)
  case Nil
  then show ?case by (simp add: lower_def)
next
  case (Cons d ds)
  show ?case
  proof (cases v)
    case Nil
    then show ?thesis by (simp add: lower_def)
  next
    case (Cons c cs)
    have "(lower cs = ds) = list_all2 same_ignoring_case cs ds"
      using Cons.IH Cons.prems by simp
    moreover have "(lower_char c = d) = same_ignoring_case c d"
      using Cons.prems by (simp add: lower_char_plain)
    ultimately show ?thesis using Cons by (simp add: lower_def)
  qed
qed

lemma str_in_lower:
  assumes "list_all plain needle"
  shows "str_in needle (lower body) = occurs_ignoring_case needle body"
proof -
  have "str_in needle (lower body) = (\<exists>u v w. body = u @ v @ w \<and> lower v = needle)"
    unfolding lower_def by (rule str_in_map)
  also have "\<dots> = occurs_ignoring_case needle body"
    unfolding occurs_ignoring_case_def by (simp only: lower_eq_plain [OF assms])
  finally show ?thesis .
qed

text \<open>
  C6. For every conclusion body the verdict of line 187 is positive exactly when the
  body contains \<open>phishing\<close> in any mix of capital and small letters and does not
  contain \<open>not a phishing\<close> in any mix of capital and small letters; a section that
  starts with \<open>Conclusion:\<close> is shown as an error box when the verdict on its stripped
  body is positive and as a success box otherwise.
\<close>

theorem verdict_iff_keyword_without_negation:
  "looks_phishing body =
     (occurs_ignoring_case ''phishing'' body
      \<and> \<not> occurs_ignoring_case ''not a phishing'' body)
   \<and> (startswith sec ''Conclusion:'' \<longrightarrow>
        render_section sec =
          [StSubheader ''Conclusion'',
           if occurs_ignoring_case ''phishing'' (strip (drop 11 sec))
              \<and> \<not> occurs_ignoring_case ''not a phishing'' (strip (drop 11 sec))
           then StError (strip (drop 11 sec)) else StSuccess (strip (drop 11 sec))])"
proof -
  have p1: "list_all plain ''phishing''" by (simp add: plain_def)
  have p2: "list_all plain ''not a phishing''" by (simp add: plain_def)
  have lp: "\<And>b. looks_phishing b =
     (occurs_ignoring_case ''phishing'' b \<and> \<not> occurs_ignoring_case ''not a phishing'' b)"
    unfolding looks_phishing_def
    by (simp only: str_in_lower [OF p1] str_in_lower [OF p2])
  have na: "startswith sec ''Conclusion:'' \<Longrightarrow> \<not> startswith sec ''Analysis:''"
    by (cases sec) (auto simp: startswith_def)
  show ?thesis
    using na by (auto simp: render_section_def Let_def lp)
qed

theorem verdict_iff_keyword_without_negation_witness:
  "startswith (''Conclusion:'' @ newline # ''This is a PHISHING attempt'') ''Conclusion:''
   \<and> looks_phishing ''This is a PHISHING attempt''
   \<and> occurs_ignoring_case ''phishing'' ''This is a PHISHING attempt''
   \<and> \<not> occurs_ignoring_case ''not a phishing'' ''This is a PHISHING attempt''
   \<and> render_section (''Conclusion:'' @ newline # ''This is a PHISHING attempt'')
      = [StSubheader ''Conclusion'', StError ''This is a PHISHING attempt'']
   \<and> \<not> looks_phishing ''NOT A Phishing message''
   \<and> \<not> (occurs_ignoring_case ''phishing'' ''NOT A Phishing message''
         \<and> \<not> occurs_ignoring_case ''not a phishing'' ''NOT A Phishing message'')"
proof -
  let ?B = "''This is a PHISHING attempt''"
  let ?S = "''Conclusion:'' @ newline # ?B"
  let ?N = "''NOT A Phishing message''"
  have a: "looks_phishing ?B" by code_simp
  have s: "startswith ?S ''Conclusion:''" by code_simp
  have d: "strip (drop 11 ?S) = ?B" by code_simp
  have m: "\<not> looks_phishing ?N" by code_simp
  from verdict_iff_keyword_without_negation [of ?B ?S] a
  have o: "occurs_ignoring_case ''phishing'' ?B
      \<and> \<not> occurs_ignoring_case ''not a phishing'' ?B"
    by blast
  from verdict_iff_keyword_without_negation [of ?B ?S] s
  have "render_section ?S =
          [StSubheader ''Conclusion'',
           if occurs_ignoring_case ''phishing'' (strip (drop 11 ?S))
              \<and> \<not> occurs_ignoring_case ''not a phishing'' (strip (drop 11 ?S))
           then StError (strip (drop 11 ?S)) else StSuccess (strip (drop 11 ?S))]"
    by blast
  then have r: "render_section ?S = [StSubheader ''Conclusion'', StError ?B]"
    unfolding d using o by simp
  from verdict_iff_keyword_without_negation [of ?N ?S] m
  have n: "\<not> (occurs_ignoring_case ''phishing'' ?N
      \<and> \<not> occurs_ignoring_case ''not a phishing'' ?N)"
    by blast
  show ?thesis using a s o r m n by blast
qed

section \<open>One run of \<open>main\<close> and the course of a session\<close>

lemma build_messages_flag:
  "build_messages (st\<lparr>credentials_revealed := b\<rparr>) u = build_messages st u"
  by (simp add: build_messages_def)

lemma main_returned:
  assumes "u \<noteq> []" and "model (build_messages st u) = Inr r"
  shows "main model st (Some u) =
           (st\<lparr>conversation_history := conversation_history st @ [\<lparr>user = u, bot = r\<rparr>],
               attempts := attempts st + 1,
               credentials_revealed := credentials_revealed st \<or> check_for_credentials u\<rparr>,
            [build_messages st u],
            Inr (if credentials_revealed st \<or> check_for_credentials u then CompromisedEnd
                 else if attempts st + 1 \<ge> 4 then SurvivedEnd else Active))"
  using assms
  by (simp add: main_def generate_response_def build_messages_flag end_of_run_def Let_def)

lemma main_raised:
  assumes "u \<noteq> []" and "model (build_messages st u) = Inl e"
  shows "main model st (Some u) =
           (st\<lparr>credentials_revealed := credentials_revealed st \<or> check_for_credentials u\<rparr>,
            [build_messages st u], Inl e)"
  using assms
  by (simp add: main_def generate_response_def build_messages_flag Let_def)


text \<open>
  C9. On every submission that \<open>main\<close> processes to its end (a non-empty text, the
  chat model returns a response), whether or not the text reveals credentials, the
  session's history grows by exactly the one entry of this turn and \<open>attempts\<close> grows by
  exactly one; the outcome of the run is decided on the state after both updates.
\<close>

theorem main_appends_and_counts:
  assumes "user_input \<noteq> []" and "model (build_messages st user_input) = Inr bot_response"
  shows "conversation_history (fst (main model st (Some user_input)))
           = conversation_history st @ [\<lparr>user = user_input, bot = bot_response\<rparr>]
       \<and> attempts (fst (main model st (Some user_input))) = attempts st + 1
       \<and> snd (snd (main model st (Some user_input)))
           = Inr (end_of_run (fst (main model st (Some user_input))))"
  using main_returned [of user_input model st bot_response] assms
  by (simp add: end_of_run_def)

theorem main_appends_and_counts_witness:
  "check_for_credentials ''a@b.co Abc12345!''
   \<and> conversation_history
        (fst (main (\<lambda>m. Inr ''thanks'') initial_state (Some ''a@b.co Abc12345!'')))
       = conversation_history initial_state
           @ [\<lparr>user = ''a@b.co Abc12345!'', bot = ''thanks''\<rparr>]
   \<and> attempts (fst (main (\<lambda>m. Inr ''thanks'') initial_state (Some ''a@b.co Abc12345!'')))
       = attempts initial_state + 1"
proof -
  have c: "check_for_credentials ''a@b.co Abc12345!''" by code_simp
  have n: "''a@b.co Abc12345!'' \<noteq> []" by simp
  note t = main_appends_and_counts
    [of "''a@b.co Abc12345!''" "\<lambda>m. Inr ''thanks''" initial_state "''thanks''", OF n refl]
  from c t show ?thesis by blast
qed

text \<open>
  C10. On every submission with a non-empty text \<open>generate_response\<close> calls the chat
  model exactly once, with the message list that ends in the user's text, whatever the
  credential check found: the text of a turn that reveals credentials is sent to the
  model too. What the run does next is what the model did on that message list: when
  the model raises, the run raises that exception; when it returns a reply, that reply
  is the bot text of the entry appended for this turn, and only then the outcome of the
  run is decided.
\<close>

theorem main_always_calls_model:
  assumes "user_input \<noteq> []"
  shows "fst (snd (main model st (Some user_input))) = [build_messages st user_input]
       \<and> fst (generate_response model st user_input) = [build_messages st user_input]
       \<and> snd (generate_response model st user_input) = model (build_messages st user_input)
       \<and> last (build_messages st user_input) = HumanMessage user_input
       \<and> (case model (build_messages st user_input) of
            Inl e \<Rightarrow> snd (snd (main model st (Some user_input))) = Inl e
          | Inr reply \<Rightarrow>
              conversation_history (fst (main model st (Some user_input)))
                = conversation_history st @ [\<lparr>user = user_input, bot = reply\<rparr>]
              \<and> snd (snd (main model st (Some user_input)))
                  = Inr (end_of_run (fst (main model st (Some user_input)))))"
proof (cases "model (build_messages st user_input)")
  case (Inl e)
  then show ?thesis
    using main_raised [of user_input model st e] assms
    by (simp add: build_messages_def generate_response_def)
next
  case (Inr r)
  then show ?thesis
    using main_returned [of user_input model st r] assms
    by (simp add: build_messages_def generate_response_def end_of_run_def)
qed

text \<open>
  The witness is a chat model whose reply repeats the last message it was sent: on a
  turn that reveals credentials the bot text of the appended entry holds them.
\<close>

theorem main_always_calls_model_witness:
  "check_for_credentials ''a@b.co Abc12345!''
   \<and> fst (snd (main (\<lambda>m. case last m of HumanMessage t \<Rightarrow> Inr (''got '' @ t)
                                | _ \<Rightarrow> Inl (Exception ''no text''))
                 initial_state (Some ''a@b.co Abc12345!'')))
       = [build_messages initial_state ''a@b.co Abc12345!'']
   \<and> conversation_history
        (fst (main (\<lambda>m. case last m of HumanMessage t \<Rightarrow> Inr (''got '' @ t)
                                | _ \<Rightarrow> Inl (Exception ''no text''))
                 initial_state (Some ''a@b.co Abc12345!'')))
       = [\<lparr>user = ''a@b.co Abc12345!'', bot = ''got a@b.co Abc12345!''\<rparr>]
   \<and> snd (snd (main (\<lambda>m. case last m of HumanMessage t \<Rightarrow> Inr (''got '' @ t)
                                | _ \<Rightarrow> Inl (Exception ''no text''))
                 initial_state (Some ''a@b.co Abc12345!'')))
       = Inr CompromisedEnd"
proof -
  let ?M = "\<lambda>m. case last m of HumanMessage t \<Rightarrow> Inr (''got '' @ t)
                  | _ \<Rightarrow> Inl (Exception ''no text'')"
  let ?U = "''a@b.co Abc12345!''"
  have c: "check_for_credentials ?U" by code_simp
  have n: "?U \<noteq> []" by simp
  note t = main_always_calls_model [of ?U ?M initial_state, OF n]
  have l: "last (build_messages initial_state ?U) = HumanMessage ?U"
    using t by blast
  have r: "?M (build_messages initial_state ?U) = Inr (''got '' @ ?U)"
    by (simp only: l message.case)
  from t have "case ?M (build_messages initial_state ?U) of
            Inl e \<Rightarrow> snd (snd (main ?M initial_state (Some ?U))) = Inl e
          | Inr reply \<Rightarrow>
              conversation_history (fst (main ?M initial_state (Some ?U)))
                = conversation_history initial_state @ [\<lparr>user = ?U, bot = reply\<rparr>]
              \<and> snd (snd (main ?M initial_state (Some ?U)))
                  = Inr (end_of_run (fst (main ?M initial_state (Some ?U))))"
    by blast
  then have h: "conversation_history (fst (main ?M initial_state (Some ?U)))
                = [\<lparr>user = ?U, bot = ''got '' @ ?U\<rparr>]"
    and o: "snd (snd (main ?M initial_state (Some ?U)))
                  = Inr (end_of_run (fst (main ?M initial_state (Some ?U))))"
    unfolding r by (simp_all add: initial_state_def)
  have e: "snd (snd (main ?M initial_state (Some ?U))) = Inr CompromisedEnd"
    using main_returned [of ?U ?M initial_state "''got '' @ ?U"] r c by simp
  from t have f: "fst (snd (main ?M initial_state (Some ?U)))
       = [build_messages initial_state ?U]"
    by blast
  from c f h e show ?thesis by simp
qed

text \<open>
  C4, as the claim states it, fails on the code: on a turn whose text reveals
  credentials \<open>attempts\<close> is incremented like on any other turn. From the initial state
  (\<open>attempts\<close> 0) the text \<open>contact me at a@b.co, pw: Abc12345!\<close> ends the session as
  compromised with \<open>attempts\<close> 1.
\<close>

theorem disclosure_turn_is_counted:
  "check_for_credentials ''contact me at a@b.co, pw: Abc12345!''
   \<and> attempts initial_state = 0
   \<and> snd (snd (main (\<lambda>m. Inr ''thanks'') initial_state
                 (Some ''contact me at a@b.co, pw: Abc12345!''))) = Inr CompromisedEnd
   \<and> attempts (fst (main (\<lambda>m. Inr ''thanks'') initial_state
                 (Some ''contact me at a@b.co, pw: Abc12345!''))) = 1"
proof -
  have c: "check_for_credentials ''contact me at a@b.co, pw: Abc12345!''" by code_simp
  show ?thesis
    using main_returned [of "''contact me at a@b.co, pw: Abc12345!''" "\<lambda>m. Inr ''thanks''"
        initial_state "''thanks''"] c
    by (simp add: initial_state_def)
qed

text \<open>
  C4, amended. The credential check runs on the new text before \<open>attempts\<close> is
  incremented, and on a processed turn whose text is detected as a disclosure the run
  ends as CompromisedEnd whatever the counter is (so also on the fourth attempt); the
  counter is incremented by one on that turn.
\<close>

theorem disclosure_turn_compromised:
  assumes "user_input \<noteq> []" and "check_for_credentials user_input"
    and "model (build_messages st user_input) = Inr bot_response"
  shows "snd (snd (main model st (Some user_input))) = Inr CompromisedEnd
       \<and> credentials_revealed (fst (main model st (Some user_input)))
       \<and> attempts (fst (main model st (Some user_input))) = attempts st + 1"
  using main_returned [of user_input model st bot_response] assms by simp

theorem disclosure_turn_compromised_witness:
  "check_for_credentials ''a@b.co Abc12345!''
   \<and> snd (snd (main (\<lambda>m. Inr ''thanks'') (initial_state\<lparr>attempts := 3\<rparr>)
                 (Some ''a@b.co Abc12345!''))) = Inr CompromisedEnd
   \<and> attempts (fst (main (\<lambda>m. Inr ''thanks'') (initial_state\<lparr>attempts := 3\<rparr>)
                 (Some ''a@b.co Abc12345!''))) = 4"
proof -
  have c: "check_for_credentials ''a@b.co Abc12345!''" by code_simp
  have n: "''a@b.co Abc12345!'' \<noteq> []" by simp
  note t = disclosure_turn_compromised
    [of "''a@b.co Abc12345!''" "\<lambda>m. Inr ''thanks''" "initial_state\<lparr>attempts := 3\<rparr>"
        "''thanks''", OF n c refl]
  from c t show ?thesis by simp
qed

text \<open>
  C5, as the claim states it, fails on the code: \<open>main\<close> has no guard on a finished
  session. After four quiet turns the session has survived; a fifth submitted text is
  processed all the same: the chat model is called once more, a fifth entry is appended
  and \<open>attempts\<close> becomes 5.
\<close>

theorem terminal_session_still_processes:
  "end_of_run (fst (run_turns (\<lambda>m. Inr ''ok'') initial_state
       [Some ''hi'', Some ''no'', Some ''why'', Some ''bye''])) = SurvivedEnd
   \<and> fst (main (\<lambda>m. Inr ''ok'')
          (fst (run_turns (\<lambda>m. Inr ''ok'') initial_state
             [Some ''hi'', Some ''no'', Some ''why'', Some ''bye'']))
          (Some ''one more''))
      = \<lparr>conversation_history =
           [\<lparr>user = ''hi'', bot = ''ok''\<rparr>, \<lparr>user = ''no'', bot = ''ok''\<rparr>,
            \<lparr>user = ''why'', bot = ''ok''\<rparr>, \<lparr>user = ''bye'', bot = ''ok''\<rparr>,
            \<lparr>user = ''one more'', bot = ''ok''\<rparr>],
         attempts = 5, credentials_revealed = False\<rparr>
   \<and> length (fst (snd (main (\<lambda>m. Inr ''ok'')
          (fst (run_turns (\<lambda>m. Inr ''ok'') initial_state
             [Some ''hi'', Some ''no'', Some ''why'', Some ''bye'']))
          (Some ''one more'')))) = 1"
  by code_simp

text \<open>
  C5, amended. Once the session has reached a terminal state (credentials revealed, or
  \<open>attempts\<close> at 4 or more), a further submitted turn is processed like any other: the
  chat model is called, one entry is appended to the history and \<open>attempts\<close> is
  incremented; the run ends terminal again, never active: as CompromisedEnd when
  credentials were revealed before or are revealed by the new text, as SurvivedEnd
  otherwise.
\<close>

theorem terminal_turn_is_processed:
  assumes "end_of_run st \<noteq> Active" and "user_input \<noteq> []"
    and "model (build_messages st user_input) = Inr bot_response"
  shows "conversation_history (fst (main model st (Some user_input)))
           = conversation_history st @ [\<lparr>user = user_input, bot = bot_response\<rparr>]
       \<and> attempts (fst (main model st (Some user_input))) = attempts st + 1
       \<and> fst (snd (main model st (Some user_input))) = [build_messages st user_input]
       \<and> snd (snd (main model st (Some user_input)))
           = Inr (if credentials_revealed st \<or> check_for_credentials user_input
                  then CompromisedEnd else SurvivedEnd)"
  using main_returned [of user_input model st bot_response] assms
  by (auto simp add: end_of_run_def split: if_splits)

theorem terminal_turn_is_processed_witness:
  "end_of_run (initial_state\<lparr>attempts := 4\<rparr>) \<noteq> Active
   \<and> conversation_history
        (fst (main (\<lambda>m. Inr ''ok'') (initial_state\<lparr>attempts := 4\<rparr>) (Some ''one more'')))
       = [\<lparr>user = ''one more'', bot = ''ok''\<rparr>]
   \<and> attempts
        (fst (main (\<lambda>m. Inr ''ok'') (initial_state\<lparr>attempts := 4\<rparr>) (Some ''one more''))) = 5
   \<and> snd (snd (main (\<lambda>m. Inr ''ok'') (initial_state\<lparr>attempts := 4\<rparr>) (Some ''one more'')))
       = Inr SurvivedEnd"
proof -
  have a: "end_of_run (initial_state\<lparr>attempts := 4\<rparr>) \<noteq> Active"
    by (simp add: end_of_run_def initial_state_def)
  have n: "''one more'' \<noteq> []" by simp
  have c: "\<not> check_for_credentials ''one more''" by code_simp
  note t = terminal_turn_is_processed
    [of "initial_state\<lparr>attempts := 4\<rparr>" "''one more''" "\<lambda>m. Inr ''ok''" "''ok''",
     OF a n refl]
  from a c t show ?thesis by (simp add: initial_state_def)
qed



end
